theory Spec2Isabelle
  imports Main
begin

section \<open>Python values shared by both modules\<close>

text \<open>
  A Python \<^verbatim>\<open>dict\<close> with string keys is an association list in insertion order:
  \<^verbatim>\<open>name in params\<close> is \<open>map_of params name \<noteq> None\<close>, \<^verbatim>\<open>params[name]\<close> is the
  value \<open>map_of\<close> finds, and \<^verbatim>\<open>not params\<close> holds for the empty list. The keys of a
  dict are distinct, so \<^verbatim>\<open>list(d.keys())\<close> is the list of first components. Strings are
  \<open>char list\<close>; the characters the code inspects are all ASCII.
\<close>

type_synonym 'v pydict = "(string \<times> 'v) list"

text \<open>
  The exceptions the code raises itself, an exception class for what the database driver
  raises (any subclass of Python's \<^verbatim>\<open>Exception\<close>), and one for a \<^verbatim>\<open>BaseException\<close> that
  is not an \<^verbatim>\<open>Exception\<close> (which \<^verbatim>\<open>except Exception\<close> does not catch).
\<close>

datatype pyexc =
    KeyError string
  | ValueError string
  | TypeError string
  | DriverError string
  | BaseExc string

fun is_Exception :: "pyexc \<Rightarrow> bool" where
  "is_Exception (BaseExc m) = False"
| "is_Exception e = True"

definition squote :: char where
  "squote = CHR 0x27"

definition dquote :: char where
  "dquote = CHR 0x22"

text \<open>\<^verbatim>\<open>sub in s\<close> for strings: \<open>sub\<close> occurs somewhere in \<open>s\<close>.\<close>

fun str_contains :: "string \<Rightarrow> string \<Rightarrow> bool" where
  "str_contains sub [] = (sub = [])"
| "str_contains sub (c # cs) = (take (length sub) (c # cs) = sub \<or> str_contains sub cs)"

text \<open>\<^verbatim>\<open>s[a:b]\<close> for indices \<open>0 \<le> a\<close>, \<open>0 \<le> b\<close>; empty when \<open>b \<le> a\<close>.\<close>

definition slice :: "string \<Rightarrow> nat \<Rightarrow> nat \<Rightarrow> string" where
  "slice s a b = take (b - a) (drop a s)"

section \<open>cnn.py: the placeholder translator\<close>

text \<open>
  \<^verbatim>\<open>_pyformat_pattern = re.compile(r"%\(([^)]+)\)s")\<close> tried at the head of a string.
  The greedy group takes the maximal run of characters other than \<open>)\<close>; it must be
  non-empty and be followed by \<open>)s\<close>. Giving characters back cannot help, since the
  character after a shorter run is not \<open>)\<close>. The result is the group and the text after
  the match.
\<close>

definition pyformat_match :: "string \<Rightarrow> (string \<times> string) option" where
  "pyformat_match s =
     (case s of
        c1 # c2 # r \<Rightarrow>
          if c1 = CHR ''%'' \<and> c2 = CHR ''('' then
            (let name = takeWhile (\<lambda>c. c \<noteq> CHR '')'') r;
                 r' = dropWhile (\<lambda>c. c \<noteq> CHR '')'') r
             in if name = [] then None
                else (case r' of
                        d1 # d2 # t \<Rightarrow>
                          if d1 = CHR '')'' \<and> d2 = CHR ''s'' then Some (name, t) else None
                      | _ \<Rightarrow> None))
          else None
      | _ \<Rightarrow> None)"

text \<open>
  \<^verbatim>\<open>_pyformat_pattern.finditer(sql)\<close> from position \<open>pos\<close>: the non-overlapping matches,
  leftmost first, each as \<open>(start, end, group 1)\<close>. A match is \<open>%(\<close>, the name and \<open>)s\<close>,
  so it ends \<open>length name + 4\<close> after its start.
\<close>

function pyformat_finditer :: "string \<Rightarrow> nat \<Rightarrow> (nat \<times> nat \<times> string) list" where
  "pyformat_finditer sql pos =
     (if length sql \<le> pos then []
      else (case pyformat_match (drop pos sql) of
              Some (name, rest) \<Rightarrow>
                (pos, pos + length name + 4, name)
                  # pyformat_finditer sql (pos + length name + 4)
            | None \<Rightarrow> pyformat_finditer sql (Suc pos)))"
  by pat_completeness auto
termination
  by (relation "measure (\<lambda>(sql, pos). length sql - pos)") auto

declare pyformat_finditer.simps [simp del]

text \<open>
  What \<^verbatim>\<open>_convert_pyformat_to_qmark\<close> returns beside the text: \<^verbatim>\<open>None\<close>, the caller's
  own mapping, or the positional list it built.
\<close>

datatype 'v bound = NoParams | PassThrough "'v pydict" | Positional "'v list"

definition missing_parameter :: "string \<Rightarrow> string \<Rightarrow> pyexc" where
  "missing_parameter name sql =
     KeyError (''Parameter '' @ [squote] @ name @ [squote] @ '' not found for SQL: '' @ sql)"

text \<open>
  The body of the \<^verbatim>\<open>for match in ...finditer(sql)\<close> loop, over the loop's variables
  \<open>(new_sql_parts, values, last_pos)\<close>.
\<close>

fun convert_loop ::
  "string \<Rightarrow> 'v pydict \<Rightarrow> (nat \<times> nat \<times> string) list \<Rightarrow> string list \<times> 'v list \<times> nat
     \<Rightarrow> pyexc + (string list \<times> 'v list \<times> nat)" where
  "convert_loop sql params [] st = Inr st"
| "convert_loop sql params ((start, stop, name) # ms) (new_sql_parts, vals, last_pos) =
     (let parts' = new_sql_parts @ [slice sql last_pos start] @ [''?'']
      in case map_of params name of
           None \<Rightarrow> Inl (missing_parameter name sql)
         | Some v \<Rightarrow> convert_loop sql params ms (parts', vals @ [v], stop))"

definition convert_pyformat_to_qmark ::
  "string \<Rightarrow> 'v pydict option \<Rightarrow> pyexc + (string \<times> 'v bound)" where
  "convert_pyformat_to_qmark sql params =
     (case params of
        None \<Rightarrow> Inr (sql, NoParams)
      | Some ps \<Rightarrow>
          if ps = [] then Inr (sql, NoParams)
          else if \<not> str_contains ''%('' sql then Inr (sql, PassThrough ps)
          else (case convert_loop sql ps (pyformat_finditer sql 0) ([], [], 0) of
                  Inl e \<Rightarrow> Inl e
                | Inr (new_sql_parts, vals, last_pos) \<Rightarrow>
                    Inr (concat (new_sql_parts @ [drop last_pos sql]), Positional vals)))"

text \<open>
  The names \<^verbatim>\<open>[m.group(1) for m in _pyformat_pattern.finditer(sql)]\<close>, in the order the
  placeholders stand in the template, and the number of \<open>?\<close> characters of a text.
\<close>

definition placeholder_names :: "string \<Rightarrow> string list" where
  "placeholder_names sql = map (\<lambda>(start, stop, name). name) (pyformat_finditer sql 0)"

definition qmarks :: "string \<Rightarrow> nat" where
  "qmarks s = count_list s (CHR ''?'')"

section \<open>cnn.py: the connection wrapper\<close>

text \<open>
  The database driver is an external collaborator. The model records every call the
  wrapper makes to it, in order, and takes the driver's answers as an input: whether a
  call raises, and what \<^verbatim>\<open>lastrowid\<close> holds.
\<close>

datatype 'v batch = RowDicts "'v pydict list" | RowTuples "'v list list"

datatype 'v driver_call =
    OpenCursor
  | Execute string "'v bound"
  | ExecuteMany string "'v batch"
  | Commit
  | Rollback
  | CloseCursor

text \<open>
  \<open>Execute sql NoParams\<close> is \<^verbatim>\<open>cursor.execute(sql)\<close>, any other \<open>Execute sql seq\<close> is
  \<^verbatim>\<open>cursor.execute(sql, seq)\<close>. In \<open>lastrowid\<close>, \<open>None\<close> says the cursor has no such
  attribute.
\<close>

record driver =
  cursor_raises :: "pyexc option"
  execute_raises :: "pyexc option"
  lastrowid :: "int option option"
  commit_raises :: "pyexc option"
  rollback_raises :: "pyexc option"
  close_raises :: "pyexc option"

datatype cursor_obj = CursorObj

text \<open>
  The fields of \<^verbatim>\<open>Cnn\<close> the methods below use: \<^verbatim>\<open>autocommit\<close>, the slot \<^verbatim>\<open>_cursor\<close>
  (\<open>None\<close> or a cursor), and the calls made to the driver so far. A cursor object
  counts as true in \<^verbatim>\<open>if getattr(self, "_cursor", None)\<close>, as an object without
  \<^verbatim>\<open>__bool__\<close> and \<^verbatim>\<open>__len__\<close> does.
\<close>

record 'v cnn =
  autocommit :: bool
  cursor :: "cursor_obj option"
  calls :: "'v driver_call list"

text \<open>
  \<^verbatim>\<open>commit\<close> and \<^verbatim>\<open>rollback\<close>: the driver's call first (what it raises propagates);
  then, when the slot holds a cursor, \<^verbatim>\<open>close()\<close> under \<^verbatim>\<open>except Exception: pass\<close> and
  the slot set to \<^verbatim>\<open>None\<close>.
\<close>

definition release_cursor :: "driver \<Rightarrow> 'v cnn \<Rightarrow> (pyexc + unit) \<times> 'v cnn" where
  "release_cursor drv self =
     (case cursor self of
        None \<Rightarrow> (Inr (), self)
      | Some c \<Rightarrow>
          (let self = self\<lparr>calls := calls self @ [CloseCursor]\<rparr>
           in case close_raises drv of
                None \<Rightarrow> (Inr (), self\<lparr>cursor := None\<rparr>)
              | Some e \<Rightarrow>
                  if is_Exception e then (Inr (), self\<lparr>cursor := None\<rparr>)
                  else (Inl e, self)))"

definition Cnn_commit :: "driver \<Rightarrow> 'v cnn \<Rightarrow> (pyexc + unit) \<times> 'v cnn" where
  "Cnn_commit drv self =
     (let self = self\<lparr>calls := calls self @ [Commit]\<rparr>
      in case commit_raises drv of
           Some e \<Rightarrow> (Inl e, self)
         | None \<Rightarrow> release_cursor drv self)"


text \<open>
  \<^verbatim>\<open>_pyformat_pattern.sub("?", sql)\<close>: every match replaced by \<open>?\<close>, the text between
  the matches kept.
\<close>

fun sub_loop :: "string \<Rightarrow> (nat \<times> nat \<times> string) list \<Rightarrow> nat \<Rightarrow> string" where
  "sub_loop sql [] last_pos = drop last_pos sql"
| "sub_loop sql ((start, stop, name) # ms) last_pos =
     slice sql last_pos start @ ''?'' @ sub_loop sql ms stop"

definition pyformat_sub_qmark :: "string \<Rightarrow> string" where
  "pyformat_sub_qmark sql = sub_loop sql (pyformat_finditer sql 0) 0"

text \<open>
  \<^verbatim>\<open>tuple(row[name] for name in names_in_order)\<close>: \<^verbatim>\<open>row[name]\<close> raises Python's own
  \<^verbatim>\<open>KeyError(name)\<close> at the first name the row lacks. \<open>seq_params\<close> is the loop over
  the rows.
\<close>

fun row_tuple :: "'v pydict \<Rightarrow> string list \<Rightarrow> pyexc + 'v list" where
  "row_tuple row [] = Inr []"
| "row_tuple row (name # names) =
     (case map_of row name of
        None \<Rightarrow> Inl (KeyError name)
      | Some v \<Rightarrow> (case row_tuple row names of Inl e \<Rightarrow> Inl e | Inr vs \<Rightarrow> Inr (v # vs)))"

fun seq_params :: "'v pydict list \<Rightarrow> string list \<Rightarrow> pyexc + 'v list list" where
  "seq_params [] names = Inr []"
| "seq_params (row # rows) names =
     (case row_tuple row names of
        Inl e \<Rightarrow> Inl e
      | Inr t \<Rightarrow> (case seq_params rows names of Inl e \<Rightarrow> Inl e | Inr ts \<Rightarrow> Inr (t # ts)))"

text \<open>The payload of \<^verbatim>\<open>create\<close> and \<^verbatim>\<open>insert\<close>: a dict, a list of dicts, or anything else.\<close>

datatype 'v pydata = DictData "'v pydict" | ListData "'v pydict list" | OtherData

text \<open>
  \<^verbatim>\<open>create\<close>, in the order of the source: the cursor is opened and stored; the statement
  and its parameters are prepared (which may raise) and handed to \<^verbatim>\<open>execute\<close> or
  \<^verbatim>\<open>executemany\<close>; \<^verbatim>\<open>lastrowid\<close> is read; with \<^verbatim>\<open>autocommit\<close> the transaction is
  committed.
\<close>

definition create_statement :: "string \<Rightarrow> 'v pydata \<Rightarrow> pyexc + 'v driver_call" where
  "create_statement sql data =
     (case data of
        ListData rows \<Rightarrow>
          (let names_in_order = placeholder_names sql
           in if names_in_order = [] then Inr (ExecuteMany sql (RowDicts rows))
              else (case seq_params rows names_in_order of
                      Inl e \<Rightarrow> Inl e
                    | Inr ts \<Rightarrow> Inr (ExecuteMany (pyformat_sub_qmark sql) (RowTuples ts))))
      | DictData d \<Rightarrow>
          (case convert_pyformat_to_qmark sql (Some d) of
             Inl e \<Rightarrow> Inl e
           | Inr (sql_to_exec, seq) \<Rightarrow> Inr (Execute sql_to_exec seq))
      | OtherData \<Rightarrow>
          Inl (TypeError (''Data for '' @ [squote] @ ''create'' @ [squote] @ '' must be dict or list[dict]'')))"

definition Cnn_create ::
  "driver \<Rightarrow> 'v cnn \<Rightarrow> string \<Rightarrow> 'v pydata \<Rightarrow> (pyexc + int option) \<times> 'v cnn" where
  "Cnn_create drv self sql data =
     (let self = self\<lparr>calls := calls self @ [OpenCursor]\<rparr>
      in case cursor_raises drv of
           Some e \<Rightarrow> (Inl e, self)
         | None \<Rightarrow>
             (let self = self\<lparr>cursor := Some CursorObj\<rparr>
              in case create_statement sql data of
                   Inl e \<Rightarrow> (Inl e, self)
                 | Inr call \<Rightarrow>
                     (let self = self\<lparr>calls := calls self @ [call]\<rparr>
                      in case execute_raises drv of
                           Some e \<Rightarrow> (Inl e, self)
                         | None \<Rightarrow>
                             (let last_id = (case lastrowid drv of None \<Rightarrow> None | Some v \<Rightarrow> v)
                              in if autocommit self then
                                   (case Cnn_commit drv self of
                                      (Inl e, self') \<Rightarrow> (Inl e, self')
                                    | (Inr u, self') \<Rightarrow> (Inr last_id, self'))
                                 else (Inr last_id, self)))))"

section \<open>sqlbuilder.py\<close>

text \<open>\<^verbatim>\<open>str(n)\<close> for a non-negative integer: its decimal digits.\<close>

definition digit_char :: "nat \<Rightarrow> char" where
  "digit_char d = ''0123456789'' ! d"

function str_of_nat :: "nat \<Rightarrow> string" where
  "str_of_nat n =
     (if n < 10 then [digit_char n] else str_of_nat (n div 10) @ [digit_char (n mod 10)])"
  by pat_completeness auto
termination
  by (relation "measure (\<lambda>n. n)") auto

declare str_of_nat.simps [simp del]

text \<open>\<^verbatim>\<open>sep.join(xs)\<close>.\<close>

fun join :: "string \<Rightarrow> string list \<Rightarrow> string" where
  "join sep [] = []"
| "join sep [x] = x"
| "join sep (x # y # ys) = x @ sep @ join sep (y # ys)"

text \<open>
  One entry of \<^verbatim>\<open>params\<close>: the keys \<^verbatim>\<open>paramName\<close>, \<^verbatim>\<open>logicalOperator\<close> (a string or
  \<^verbatim>\<open>None\<close>), \<^verbatim>\<open>comparisonOperator\<close> and \<^verbatim>\<open>value\<close> (a list, \<^verbatim>\<open>None\<close>, or anything else).
\<close>

datatype 'v cond_value = NoneValue | ScalarValue 'v | ListValue "'v list"

record 'v condition =
  paramName :: string
  logicalOperator :: "string option"
  comparisonOperator :: string
  cvalue :: "'v cond_value"

text \<open>\<^verbatim>\<open>f"{paramAlias}_{i}"\<close>.\<close>

definition alias_name :: "string \<Rightarrow> nat \<Rightarrow> string" where
  "alias_name paramAlias i = paramAlias @ ''_'' @ str_of_nat i"

text \<open>
  Two aliases are equal only for the same prefix and the same index: the digits of
  \<^verbatim>\<open>str(i)\<close> hold no underscore, so the last underscore of an alias separates the two.
  The search for a free index below relies on it to terminate.
\<close>


lemma digit_char_cases:
  "d < 10 \<Longrightarrow> digit_char d \<in> set ''0123456789''"
  unfolding digit_char_def by (rule nth_mem) simp

lemma digit_char_inj: "a < 10 \<Longrightarrow> b < 10 \<Longrightarrow> digit_char a = digit_char b \<Longrightarrow> a = b"
proof -
  assume a: "a < 10" and b: "b < 10" and e: "digit_char a = digit_char b"
  have d: "distinct ''0123456789''" by simp
  have "length ''0123456789'' = 10" by simp
  with a b e nth_eq_iff_index_eq[OF d, of a b] show ?thesis unfolding digit_char_def
    by simp
qed

lemma str_of_nat_digits: "set (str_of_nat n) \<subseteq> set ''0123456789''"
proof (induction n rule: str_of_nat.induct)
  case (1 n)
  show ?case
  proof (cases "n < 10")
    case True
    then have "str_of_nat n = [digit_char n]" by (subst str_of_nat.simps) simp
    with digit_char_cases[OF True] show ?thesis by simp
  next
    case False
    then have e: "str_of_nat n = str_of_nat (n div 10) @ [digit_char (n mod 10)]"
      by (subst str_of_nat.simps) simp
    have "n mod 10 < 10" by simp
    from digit_char_cases[OF this] "1.IH"[OF False] show ?thesis unfolding e by simp
  qed
qed

lemma str_of_nat_no_underscore: "CHR ''_'' \<notin> set (str_of_nat n)"
  using str_of_nat_digits[of n] by auto

lemma str_of_nat_nonempty: "str_of_nat n \<noteq> []"
  by (subst str_of_nat.simps) simp

lemma str_of_nat_inj: "str_of_nat a = str_of_nat b \<Longrightarrow> a = b"
proof (induction a arbitrary: b rule: str_of_nat.induct)
  case (1 n)
  show ?case
  proof (cases "n < 10")
    case True
    then have en: "str_of_nat n = [digit_char n]" by (subst str_of_nat.simps) simp
    show ?thesis
    proof (cases "b < 10")
      case bT: True
      then have eb: "str_of_nat b = [digit_char b]" by (subst str_of_nat.simps) simp
      from "1.prems" have "[digit_char n] = [digit_char b]" unfolding en eb .
      then have "digit_char n = digit_char b" by simp
      then show ?thesis by (rule digit_char_inj[OF True bT])
    next
      case bF: False
      then have eb: "str_of_nat b = str_of_nat (b div 10) @ [digit_char (b mod 10)]"
        by (subst str_of_nat.simps) simp
      from "1.prems" have "[digit_char n] = str_of_nat (b div 10) @ [digit_char (b mod 10)]"
        unfolding en eb .
      then have "str_of_nat (b div 10) = []" by simp
      with str_of_nat_nonempty[of "b div 10"] show ?thesis by simp
    qed
  next
    case False
    then have en: "str_of_nat n = str_of_nat (n div 10) @ [digit_char (n mod 10)]"
      by (subst str_of_nat.simps) simp
    show ?thesis
    proof (cases "b < 10")
      case bT: True
      then have eb: "str_of_nat b = [digit_char b]" by (subst str_of_nat.simps) simp
      from "1.prems" have "str_of_nat (n div 10) @ [digit_char (n mod 10)] = [digit_char b]"
        unfolding en eb .
      then have "str_of_nat (n div 10) = []" by simp
      with str_of_nat_nonempty[of "n div 10"] show ?thesis by simp
    next
      case bF: False
      then have eb: "str_of_nat b = str_of_nat (b div 10) @ [digit_char (b mod 10)]"
        by (subst str_of_nat.simps) simp
      from "1.prems" have
        "str_of_nat (n div 10) @ [digit_char (n mod 10)]
           = str_of_nat (b div 10) @ [digit_char (b mod 10)]"
        unfolding en eb .
      then have q: "str_of_nat (n div 10) = str_of_nat (b div 10)"
        and r: "digit_char (n mod 10) = digit_char (b mod 10)" by simp_all
      from "1.IH"[OF False q] have d1: "n div 10 = b div 10" .
      have d2: "n mod 10 = b mod 10" by (rule digit_char_inj[OF _ _ r]) simp_all
      have "n div 10 * 10 + n mod 10 = b div 10 * 10 + b mod 10" unfolding d1 d2 ..
      then show ?thesis by (simp only: div_mult_mod_eq)
    qed
  qed
qed

lemma takeWhile_until: "c \<notin> set ys \<Longrightarrow> takeWhile (\<lambda>x. x \<noteq> c) (ys @ c # zs) = ys"
  by (induction ys) auto

lemma append_sep_unique:
  assumes "xs @ c # ys = xs' @ c # ys'" "c \<notin> set ys" "c \<notin> set ys'"
  shows "xs = xs' \<and> ys = ys'"
proof -
  have "takeWhile (\<lambda>x. x \<noteq> c) (rev ys @ c # rev xs) = rev ys"
    using assms(2) by (simp add: takeWhile_until)
  moreover have "takeWhile (\<lambda>x. x \<noteq> c) (rev ys' @ c # rev xs') = rev ys'"
    using assms(3) by (simp add: takeWhile_until)
  moreover have "rev ys @ c # rev xs = rev ys' @ c # rev xs'"
    using arg_cong[OF assms(1), of rev] by simp
  ultimately have "ys = ys'" by simp
  with assms(1) show ?thesis by simp
qed

lemma alias_name_inj:
  "alias_name p i = alias_name q j \<Longrightarrow> p = q \<and> i = j"
  unfolding alias_name_def
  using append_sep_unique[of p "CHR ''_''" "str_of_nat i" q "str_of_nat j"]
    str_of_nat_no_underscore str_of_nat_inj by auto

lemma finite_alias_indices: "finite {k. alias_name p k \<in> set used}"
proof -
  have "inj (alias_name p)" by (rule injI) (auto dest: alias_name_inj)
  then have "finite (alias_name p -` set used)" by (rule finite_vimageI[rotated]) simp
  then show ?thesis by (simp add: vimage_def)
qed


text \<open>
  The loop \<^verbatim>\<open>while f"{paramAlias}_{next_index}" in usedParamNames: next_index += 1\<close>,
  from \<open>next_index\<close> on. It ends because only finitely many indices have a used alias.
\<close>

function next_index_from :: "string \<Rightarrow> string list \<Rightarrow> nat \<Rightarrow> nat" where
  "next_index_from paramAlias usedParamNames next_index =
     (if alias_name paramAlias next_index \<in> set usedParamNames
      then next_index_from paramAlias usedParamNames (next_index + 1)
      else next_index)"
  by pat_completeness auto
termination
proof (relation "measure (\<lambda>(p, used, n). card {k. n \<le> k \<and> alias_name p k \<in> set used})")
  show "wf (measure (\<lambda>(p, used, n). card {k. n \<le> k \<and> alias_name p k \<in> set used}))" by simp
next
  fix paramAlias :: string and usedParamNames :: "string list" and next_index :: nat
  assume m: "alias_name paramAlias next_index \<in> set usedParamNames"
  let ?A = "{k. next_index \<le> k \<and> alias_name paramAlias k \<in> set usedParamNames}"
  let ?B = "{k. next_index + 1 \<le> k \<and> alias_name paramAlias k \<in> set usedParamNames}"
  have fin: "finite ?A" using finite_alias_indices[of paramAlias usedParamNames] by simp
  have "next_index \<in> ?A" using m by simp
  moreover have "next_index \<notin> ?B" by simp
  moreover have "?B \<subseteq> ?A" by auto
  ultimately have "?B \<subset> ?A" by blast
  from psubset_card_mono[OF fin this]
  show "((paramAlias, usedParamNames, next_index + 1), (paramAlias, usedParamNames, next_index))
          \<in> measure (\<lambda>(p, used, n). card {k. n \<le> k \<and> alias_name p k \<in> set used})"
    by simp
qed

declare next_index_from.simps [simp del]

text \<open>
  The last two statements of the loop body of \<^verbatim>\<open>whereCondition\<close>: the connective is
  appended when it is not \<^verbatim>\<open>None\<close>, then the column, the operator and the value text.
\<close>

definition with_connective :: "string \<Rightarrow> string option \<Rightarrow> string" where
  "with_connective result logicalOp =
     (case logicalOp of None \<Rightarrow> result | Some lop \<Rightarrow> result @ '' '' @ lop)"

definition append_condition :: "string \<Rightarrow> string option \<Rightarrow> string \<Rightarrow> string \<Rightarrow> string \<Rightarrow> string" where
  "append_condition result logicalOp quotedName comparisonOp valueText =
     with_connective result logicalOp @ '' '' @ quotedName @ '' '' @ comparisonOp @ valueText"

text \<open>
  One turn of \<^verbatim>\<open>for condition in params\<close>, over \<open>(result, usedParamNames)\<close>. For a list
  the operator becomes \<open>IN\<close> unless it is \<open>NOT IN\<close>, the aliases are numbered from the
  first free index, and an empty list resets column, connective and operator to the empty
  string and the value text to \<open>1\<close>.
\<close>

definition where_step :: "string \<times> string list \<Rightarrow> 'v condition \<Rightarrow> string \<times> string list" where
  "where_step st condition =
     (case st of (result, usedParamNames) \<Rightarrow>
        (let quotedName = [dquote] @ paramName condition @ [dquote];
             paramAlias = ''param_'' @ paramName condition
         in case cvalue condition of
              ListValue vs \<Rightarrow>
                (let comparisonOp =
                       (if comparisonOperator condition \<noteq> ''NOT IN'' then ''IN''
                        else comparisonOperator condition);
                     next_index = next_index_from paramAlias usedParamNames 0;
                     inParamNames =
                       map (\<lambda>i. alias_name paramAlias (i + next_index)) [0..<length vs];
                     usedParamNames = usedParamNames @ inParamNames;
                     joinedValues = map (\<lambda>n. ''%('' @ n @ '')s'') inParamNames;
                     valueText = ''('' @ join '','' joinedValues @ '')''
                 in if length vs < 1
                    then (append_condition result (Some []) [] [] ''1'', usedParamNames)
                    else (append_condition result (logicalOperator condition) quotedName
                            comparisonOp valueText, usedParamNames))
            | NoneValue \<Rightarrow>
                (append_condition result (logicalOperator condition) quotedName
                   (comparisonOperator condition) [], usedParamNames)
            | ScalarValue v \<Rightarrow>
                (append_condition result (logicalOperator condition) quotedName
                   (comparisonOperator condition) ('' %('' @ paramAlias @ '')s''),
                 usedParamNames)))"

definition where_loop :: "'v condition list \<Rightarrow> string \<times> string list" where
  "where_loop params = foldl where_step (''WHERE'', []) params"

definition whereCondition :: "'v condition list \<Rightarrow> string" where
  "whereCondition params = fst (where_loop params)"

text \<open>
  \<^verbatim>\<open>insert\<close> and \<^verbatim>\<open>update\<close> of a builder for \<open>table\<close>. The keys of a dict are the first
  components of its association list.
\<close>

definition insert_keys :: "'v pydata \<Rightarrow> pyexc + string list" where
  "insert_keys data =
     (case data of
        DictData d \<Rightarrow> Inr (map fst d)
      | ListData rows \<Rightarrow>
          (case rows of
             row # rest \<Rightarrow> Inr (map fst row)
           | [] \<Rightarrow> Inl (ValueError ''Data for insert() must be dict or non-empty list[dict]''))
      | OtherData \<Rightarrow> Inl (ValueError ''Data for insert() must be dict or non-empty list[dict]''))"

definition SqlBuilder_insert :: "string \<Rightarrow> 'v pydata \<Rightarrow> pyexc + string" where
  "SqlBuilder_insert table data =
     (case insert_keys data of
        Inl e \<Rightarrow> Inl e
      | Inr keys \<Rightarrow>
          (let vals = map (\<lambda>key. ''%('' @ key @ '')s'') keys;
               columns = join '','' (map (\<lambda>k. [dquote] @ k @ [dquote]) keys)
           in Inr (''INSERT INTO '' @ [dquote] @ table @ [dquote] @ '' ('' @ columns
                     @ '') VALUES('' @ join '','' vals @ '')'')))"

definition SqlBuilder_update :: "string \<Rightarrow> 'v pydata \<Rightarrow> pyexc + string" where
  "SqlBuilder_update table data =
     (case data of
        DictData d \<Rightarrow>
          if length d = 0 then Inl (ValueError ''Data for update() must be non-empty dict'')
          else (let pairs = map (\<lambda>key. [dquote] @ key @ [dquote] @ '' = %('' @ key @ '')s'')
                              (map fst d)
                in Inr (''UPDATE '' @ [dquote] @ table @ [dquote] @ '' SET '' @ join '','' pairs))
      | _ \<Rightarrow> Inl (ValueError ''Data for update() must be non-empty dict''))"

section \<open>Properties of the translator\<close>

text \<open>
  C3. For every template, with or without named placeholders, translation with an absent
  value source (\<^verbatim>\<open>None\<close>) or an empty one (\<^verbatim>\<open>{}\<close>) returns the template unchanged
  together with \<^verbatim>\<open>None\<close> as the value sequence; \<^verbatim>\<open>create\<close> then calls
  \<^verbatim>\<open>execute\<close> with the template alone.
\<close>

theorem convert_empty_values:
  "convert_pyformat_to_qmark sql None = Inr (sql, NoParams)
   \<and> convert_pyformat_to_qmark sql (Some []) = Inr (sql, NoParams)
   \<and> create_statement sql (DictData []) = Inr (Execute sql NoParams)"
  by (simp add: convert_pyformat_to_qmark_def create_statement_def)

subsection \<open>The scan of a template\<close>


lemma pyformat_match_SomeD:
  assumes "pyformat_match s = Some (name, rest)"
  shows "s = ''%('' @ name @ '')s'' @ rest \<and> name \<noteq> [] \<and> CHR '')'' \<notin> set name"
proof -
  from assms obtain r where s: "s = CHR ''%'' # CHR ''('' # r"
    by (auto simp: pyformat_match_def split: list.splits if_splits)
  let ?P = "\<lambda>c. c \<noteq> CHR '')''"
  from assms s have n: "name = takeWhile ?P r" and ne: "name \<noteq> []"
    and d: "dropWhile ?P r = CHR '')'' # CHR ''s'' # rest"
    by (auto simp: pyformat_match_def Let_def split: list.splits if_splits)
  have "r = takeWhile ?P r @ dropWhile ?P r" by simp
  with n d have "r = name @ CHR '')'' # CHR ''s'' # rest" by simp
  moreover have "CHR '')'' \<notin> set name" unfolding n by (auto dest: set_takeWhileD)
  ultimately show ?thesis using s ne by simp
qed


lemma qmarks_Nil [simp]: "qmarks [] = 0"
  by (simp add: qmarks_def)

lemma qmarks_Cons [simp]: "qmarks (c # cs) = (if c = CHR ''?'' then 1 else 0) + qmarks cs"
  by (simp add: qmarks_def)

lemma qmarks_append [simp]: "qmarks (a @ b) = qmarks a + qmarks b"
  by (induction a) auto

lemma drop_split_slice: "last_pos \<le> pos \<Longrightarrow> drop last_pos s = slice s last_pos pos @ drop pos s"
proof -
  assume "last_pos \<le> pos"
  then have "drop pos s = drop (pos - last_pos) (drop last_pos s)" by simp
  then show ?thesis by (simp only: slice_def append_take_drop_id)
qed

lemma drop_length_append: "drop (length a) (a @ b) = b"
  by simp

lemma drop_match:
  assumes "pyformat_match (drop pos sql) = Some (name, rest)"
  shows "rest = drop (pos + length name + 4) sql" and "drop pos sql = ''%('' @ name @ '')s'' @ rest"
proof -
  from pyformat_match_SomeD[OF assms] show d: "drop pos sql = ''%('' @ name @ '')s'' @ rest" by simp
  have l: "length name + 4 = length (''%('' @ name @ '')s'')" by simp
  have "drop (length (''%('' @ name @ '')s'')) ((''%('' @ name @ '')s'') @ rest) = rest"
    by (rule drop_length_append)
  then have "drop (length name + 4) (drop pos sql) = rest" unfolding d l by simp
  then show "rest = drop (pos + length name + 4) sql" by (simp add: ac_simps)
qed

lemma convert_loop_qmarks:
  "convert_loop sql ps (pyformat_finditer sql pos) (parts, vals, last_pos) = Inr (parts', vals', last')
   \<Longrightarrow> last_pos \<le> pos
   \<Longrightarrow> qmarks (concat parts') + qmarks (drop last' sql)
         + sum_list (map (\<lambda>m. qmarks (snd (snd m))) (pyformat_finditer sql pos))
       = qmarks (concat parts) + qmarks (drop last_pos sql) + length (pyformat_finditer sql pos)"
proof (induction sql pos arbitrary: parts vals last_pos rule: pyformat_finditer.induct)
  case (1 sql pos)
  show ?case
  proof (cases "length sql \<le> pos")
    case True
    then have eq: "pyformat_finditer sql pos = []"
      by (subst pyformat_finditer.simps) simp
    with "1.prems" show ?thesis by simp
  next
    case False
    show ?thesis
    proof (cases "pyformat_match (drop pos sql)")
      case None
      with False have eq: "pyformat_finditer sql pos = pyformat_finditer sql (Suc pos)"
        by (subst pyformat_finditer.simps) simp
      from "1.IH"(1)[OF False None, of parts vals last_pos] "1.prems" show ?thesis
        unfolding eq by simp
    next
      case (Some a)
      obtain name rest where a: "a = (name, rest)" by (cases a)
      let ?e = "pos + length name + 4"
      from False Some a have eq: "pyformat_finditer sql pos = (pos, ?e, name) # pyformat_finditer sql ?e"
        by (subst pyformat_finditer.simps) simp
      from "1.prems"(1) obtain v where v: "map_of ps name = Some v"
        and run: "convert_loop sql ps (pyformat_finditer sql ?e)
                  (parts @ [slice sql last_pos pos] @ [''?''], vals @ [v], ?e) = Inr (parts', vals', last')"
        unfolding eq by (auto simp: Let_def split: option.splits)
      from Some a have m: "pyformat_match (drop pos sql) = Some (name, rest)" by simp
      have ih: "qmarks (concat parts') + qmarks (drop last' sql)
         + sum_list (map (\<lambda>m. qmarks (snd (snd m))) (pyformat_finditer sql ?e))
       = qmarks (concat (parts @ [slice sql last_pos pos] @ [''?''])) + qmarks (drop ?e sql) + length (pyformat_finditer sql ?e)"
        using "1.IH"(2)[OF False m refl run] by simp
      have d: "drop last_pos sql = slice sql last_pos pos @ ''%('' @ name @ '')s'' @ drop ?e sql"
        using drop_split_slice[OF "1.prems"(2), of sql] drop_match[OF m] by simp
      have "qmarks (drop last_pos sql) = qmarks (slice sql last_pos pos) + qmarks name + qmarks (drop ?e sql)"
        unfolding d by simp
      with ih show ?thesis unfolding eq by simp
    qed
  qed
qed


lemma convert_loop_values:
  "\<forall>m \<in> set ms. map_of ps (snd (snd m)) \<noteq> None
   \<Longrightarrow> \<exists>parts' vals' last'.
         convert_loop sql ps ms (parts, vals, last_pos) = Inr (parts', vals @ vals', last')
         \<and> map (\<lambda>m. map_of ps (snd (snd m))) ms = map Some vals'"
proof (induction ms arbitrary: parts vals last_pos)
  case Nil
  then show ?case by simp
next
  case (Cons m ms)
  obtain start stop name where m: "m = (start, stop, name)" by (cases m)
  from Cons.prems m obtain v where v: "map_of ps name = Some v" by auto
  from Cons.prems have "\<forall>m \<in> set ms. map_of ps (snd (snd m)) \<noteq> None" by simp
  from Cons.IH[OF this, of "parts @ [slice sql last_pos start] @ [''?'']" "vals @ [v]" stop]
  obtain parts' vals' last' where
    r: "convert_loop sql ps ms (parts @ [slice sql last_pos start] @ [''?''], vals @ [v], stop)
          = Inr (parts', (vals @ [v]) @ vals', last')"
    and e: "map (\<lambda>m. map_of ps (snd (snd m))) ms = map Some vals'" by blast
  have "convert_loop sql ps (m # ms) (parts, vals, last_pos) = Inr (parts', vals @ (v # vals'), last')"
    using r v m by simp
  moreover have "map (\<lambda>m. map_of ps (snd (snd m))) (m # ms) = map Some (v # vals')"
    using e v m by simp
  ultimately show ?case by blast
qed

lemma str_contains_prefix: "str_contains sub (sub @ b)"
proof (cases "sub @ b")
  case Nil
  then show ?thesis by simp
next
  case (Cons c cs)
  have "take (length sub) (sub @ b) = sub" by simp
  then have "take (length sub) (c # cs) = sub" unfolding Cons .
  then have "str_contains sub (c # cs)" by simp
  then show ?thesis unfolding Cons .
qed

lemma str_contains_append: "str_contains sub (a @ sub @ b)"
  by (induction a) (simp_all add: str_contains_prefix)

lemma finditer_names_subset:
  "m \<in> set (pyformat_finditer sql pos) \<Longrightarrow> set (snd (snd m)) \<subseteq> set sql"
proof (induction sql pos rule: pyformat_finditer.induct)
  case (1 sql pos)
  show ?case
  proof (cases "length sql \<le> pos")
    case True
    then have "pyformat_finditer sql pos = []" by (subst pyformat_finditer.simps) simp
    with "1.prems" show ?thesis by simp
  next
    case False
    show ?thesis
    proof (cases "pyformat_match (drop pos sql)")
      case None
      with False have "pyformat_finditer sql pos = pyformat_finditer sql (Suc pos)"
        by (subst pyformat_finditer.simps) simp
      with "1.IH"(1)[OF False None] "1.prems" show ?thesis by simp
    next
      case (Some a)
      obtain name rest where a: "a = (name, rest)" by (cases a)
      let ?e = "pos + length name + 4"
      from False Some a have eq: "pyformat_finditer sql pos = (pos, ?e, name) # pyformat_finditer sql ?e"
        by (subst pyformat_finditer.simps) simp
      from Some a have m: "pyformat_match (drop pos sql) = Some (name, rest)" by simp
      have "set name \<subseteq> set (drop pos sql)" using drop_match(2)[OF m] by auto
      then have "set name \<subseteq> set sql" using set_drop_subset[of pos sql] by blast
      with "1.IH"(2)[OF False m refl] "1.prems" show ?thesis unfolding eq by auto
    qed
  qed
qed

lemma finditer_nonempty_contains:
  "pyformat_finditer sql pos \<noteq> [] \<Longrightarrow> str_contains ''%('' sql"
proof (induction sql pos rule: pyformat_finditer.induct)
  case (1 sql pos)
  show ?case
  proof (cases "length sql \<le> pos")
    case True
    then have "pyformat_finditer sql pos = []" by (subst pyformat_finditer.simps) simp
    with "1.prems" show ?thesis by simp
  next
    case False
    show ?thesis
    proof (cases "pyformat_match (drop pos sql)")
      case None
      with False have "pyformat_finditer sql pos = pyformat_finditer sql (Suc pos)"
        by (subst pyformat_finditer.simps) simp
      with "1.IH"(1)[OF False None] "1.prems" show ?thesis by simp
    next
      case (Some a)
      obtain name rest where a: "a = (name, rest)" by (cases a)
      from Some a have m: "pyformat_match (drop pos sql) = Some (name, rest)" by simp
      have "sql = take pos sql @ ''%('' @ (name @ '')s'' @ rest)"
        using drop_match(2)[OF m] append_take_drop_id[of pos sql] by simp
      then show ?thesis using str_contains_append[of "''%(''" "take pos sql" "name @ '')s'' @ rest"] by simp
    qed
  qed
qed

text \<open>
  C1 (as amended). For every template with at least one named placeholder and every
  non-empty value mapping that holds every referenced name, translation returns a text and
  a value list such that: the list has one entry per placeholder, the i-th entry being the
  mapping's value for the name of the i-th placeholder from the left (a name used twice is
  bound twice); and the number of \<open>?\<close> in the text is the length of the list plus the
  number of \<open>?\<close> the template already has outside its placeholders. So the two numbers
  agree when the template holds no \<open>?\<close> of its own.
\<close>

theorem convert_binds_in_order:
  assumes "ps \<noteq> []"
    and "placeholder_names sql \<noteq> []"
    and "\<forall>name \<in> set (placeholder_names sql). map_of ps name \<noteq> None"
  shows "\<exists>text vals.
           convert_pyformat_to_qmark sql (Some ps) = Inr (text, Positional vals)
           \<and> map (map_of ps) (placeholder_names sql) = map Some vals
           \<and> length vals = length (placeholder_names sql)
           \<and> qmarks text + sum_list (map qmarks (placeholder_names sql)) = qmarks sql + length vals
           \<and> (CHR ''?'' \<notin> set sql \<longrightarrow> qmarks text = length vals)"
proof -
  let ?ms = "pyformat_finditer sql 0"
  from assms(2) have ne: "?ms \<noteq> []" by (simp add: placeholder_names_def)
  then have c: "str_contains ''%('' sql" by (rule finditer_nonempty_contains)
  from assms(3) have "\<forall>m \<in> set ?ms. map_of ps (snd (snd m)) \<noteq> None"
    by (auto simp: placeholder_names_def)
  from convert_loop_values[OF this, of sql "[]" "[]" 0]
  obtain parts' vals' last' where
    r: "convert_loop sql ps ?ms ([], [], 0) = Inr (parts', vals', last')"
    and e: "map (\<lambda>m. map_of ps (snd (snd m))) ?ms = map Some vals'" by auto
  let ?text = "concat (parts' @ [drop last' sql])"
  have conv: "convert_pyformat_to_qmark sql (Some ps) = Inr (?text, Positional vals')"
    using assms(1) c r by (simp add: convert_pyformat_to_qmark_def)
  have names: "placeholder_names sql = map (\<lambda>m. snd (snd m)) ?ms"
    by (simp add: placeholder_names_def case_prod_beta)
  have e': "map (map_of ps) (placeholder_names sql) = map Some vals'"
    using e by (simp add: names comp_def)
  have len: "length vals' = length (placeholder_names sql)"
    using arg_cong[OF e', of length] by simp
  have acc: "qmarks ?text + sum_list (map qmarks (placeholder_names sql)) = qmarks sql + length vals'"
    using convert_loop_qmarks[OF r] len
    by (simp add: names comp_def case_prod_beta)
  have "qmarks ?text = length vals'" if nq: "CHR ''?'' \<notin> set sql"
  proof -
    have z: "qmarks s = 0" if "set s \<subseteq> set sql" for s
      using that nq by (induction s) auto
    have q0: "qmarks sql = 0" by (rule z) simp
    have s0: "sum_list (map qmarks (placeholder_names sql)) = 0"
      unfolding names using finditer_names_subset[of _ sql 0] z by (simp add: comp_def)
    from acc show ?thesis unfolding q0 s0 by simp
  qed
  with conv e' len acc show ?thesis by blast
qed

theorem convert_binds_in_order_witness:
  "placeholder_names ''a = %(x)s OR b = %(x)s'' = [''x'', ''x'']
   \<and> convert_pyformat_to_qmark ''a = %(x)s OR b = %(x)s'' (Some [(''x'', 5::int)])
       = Inr (''a = ? OR b = ?'', Positional [5, 5])
   \<and> qmarks ''a = ? OR b = ?'' = length [5::int, 5]"
proof -
  have n: "placeholder_names ''a = %(x)s OR b = %(x)s'' = [''x'', ''x'']"
    by code_simp
  have c: "convert_pyformat_to_qmark ''a = %(x)s OR b = %(x)s'' (Some [(''x'', 5::int)])
       = Inr (''a = ? OR b = ?'', Positional [5, 5])"
    by code_simp
  show ?thesis
    using convert_binds_in_order[of "[(''x'', 5::int)]" "''a = %(x)s OR b = %(x)s''"] n c
    by simp
qed

text \<open>
  A template that already holds a positional marker keeps it: the text then has two
  markers for one value.
\<close>

theorem convert_literal_qmark_counterexample:
  "convert_pyformat_to_qmark ''a = ? AND b = %(x)s'' (Some [(''x'', 5::int)])
     = Inr (''a = ? AND b = ?'', Positional [5])
   \<and> qmarks ''a = ? AND b = ?'' \<noteq> length [5::int]"
  by code_simp

subsection \<open>Missing names\<close>

lemma placeholder_names_a: "placeholder_names ''%(a)s'' = [''a'']"
  by code_simp

lemma contains_a: "str_contains ''%('' ''%(a)s''"
  by simp

lemma finditer_a: "pyformat_finditer ''%(a)s'' 0 = [(0, 5, ''a'')]"
  by code_simp

lemma seq_params_missing:
  "row \<in> set rows \<Longrightarrow> map_of row name = None \<Longrightarrow> seq_params rows [name] = Inl (KeyError name)"
proof (induction rows)
  case Nil
  then show ?case by simp
next
  case (Cons r rows)
  show ?case
  proof (cases "map_of r name")
    case None
    then show ?thesis by simp
  next
    case (Some v)
    with Cons have "row \<in> set rows" by auto
    from Cons.IH[OF this Cons.prems(2)] Some show ?thesis by simp
  qed
qed

text \<open>
  C2 (as amended). Translating the template \<open>%(a)s\<close> with a non-empty value source that
  lacks the key \<open>a\<close> raises \<^verbatim>\<open>KeyError\<close> with the message
  \<^verbatim>\<open>Parameter 'a' not found for SQL: %(a)s\<close>, naming both the parameter and the template;
  \<^verbatim>\<open>create\<close> then raises it after opening the cursor and before any \<^verbatim>\<open>execute\<close>. In a
  batch, a row that lacks \<open>a\<close> makes \<^verbatim>\<open>create\<close> raise a \<^verbatim>\<open>KeyError\<close> before any
  \<^verbatim>\<open>executemany\<close>. No value is bound in either case.
\<close>

theorem missing_parameter_raised:
  "(ps \<noteq> [] \<and> map_of ps ''a'' = None \<longrightarrow>
      convert_pyformat_to_qmark ''%(a)s'' (Some ps)
        = Inl (KeyError (''Parameter '' @ [squote] @ ''a'' @ [squote] @ '' not found for SQL: %(a)s''))
      \<and> (cursor_raises drv = None \<longrightarrow>
           Cnn_create drv self ''%(a)s'' (DictData ps)
             = (Inl (KeyError (''Parameter '' @ [squote] @ ''a'' @ [squote] @ '' not found for SQL: %(a)s'')),
                self\<lparr>calls := calls self @ [OpenCursor], cursor := Some CursorObj\<rparr>)))
   \<and> (row \<in> set rows \<and> map_of row ''a'' = None \<and> cursor_raises drv = None \<longrightarrow>
        (\<exists>msg. Cnn_create drv self ''%(a)s'' (ListData rows)
                 = (Inl (KeyError msg),
                    self\<lparr>calls := calls self @ [OpenCursor], cursor := Some CursorObj\<rparr>)))"
proof -
  have single: "convert_pyformat_to_qmark ''%(a)s'' (Some ps)
        = Inl (KeyError (''Parameter '' @ [squote] @ ''a'' @ [squote] @ '' not found for SQL: %(a)s''))"
    if "ps \<noteq> []" "map_of ps ''a'' = None"
    using that contains_a
    by (simp add: convert_pyformat_to_qmark_def finditer_a missing_parameter_def)
  have batch: "create_statement ''%(a)s'' (ListData rows) = Inl (KeyError ''a'')"
    if "row \<in> set rows" "map_of row ''a'' = None"
    using seq_params_missing[OF that]
    by (simp add: create_statement_def placeholder_names_a)
  show ?thesis
    using single batch
    by (simp add: Cnn_create_def create_statement_def)
qed

theorem missing_parameter_raised_witness:
  "convert_pyformat_to_qmark ''%(a)s'' (Some [(''b'', 1::int)])
     = Inl (KeyError (''Parameter '' @ [squote] @ ''a'' @ [squote] @ '' not found for SQL: %(a)s''))
   \<and> (\<exists>msg. Cnn_create \<lparr>cursor_raises = None, execute_raises = None, lastrowid = None,
                  commit_raises = None, rollback_raises = None, close_raises = None\<rparr>
        \<lparr>autocommit = True, cursor = None, calls = []\<rparr> ''%(a)s'' (ListData [[(''a'', 1::int)], []])
       = (Inl (KeyError msg), \<lparr>autocommit = True, cursor = Some CursorObj, calls = [OpenCursor]\<rparr>))"
  using missing_parameter_raised[of "[(''b'', 1::int)]"
          "\<lparr>cursor_raises = None, execute_raises = None, lastrowid = None,
             commit_raises = None, rollback_raises = None, close_raises = None\<rparr>"
          "\<lparr>autocommit = True, cursor = None, calls = []\<rparr>" "[]" "[[(''a'', 1::int)], []]"]
  by simp

text \<open>
  With the empty single-row source \<^verbatim>\<open>{}\<close> nothing is raised (C3): the template goes to
  the driver as it is, without parameters.
\<close>

theorem empty_source_not_raised_counterexample:
  "convert_pyformat_to_qmark ''%(a)s'' (Some ([] :: int pydict)) = Inr (''%(a)s'', NoParams)
   \<and> Cnn_create \<lparr>cursor_raises = None, execute_raises = None, lastrowid = None,
                  commit_raises = None, rollback_raises = None, close_raises = None\<rparr>
        \<lparr>autocommit = False, cursor = None, calls = []\<rparr> ''%(a)s'' (DictData ([] :: int pydict))
       = (Inr None, \<lparr>autocommit = False, cursor = Some CursorObj,
                     calls = [OpenCursor, Execute ''%(a)s'' NoParams]\<rparr>)"
  by (simp add: convert_pyformat_to_qmark_def Cnn_create_def create_statement_def)

subsection \<open>Pass-through\<close>

lemma convert_passthrough:
  "ps \<noteq> [] \<Longrightarrow> \<not> str_contains ''%('' sql
   \<Longrightarrow> convert_pyformat_to_qmark sql (Some ps) = Inr (sql, PassThrough ps)"
  by (simp add: convert_pyformat_to_qmark_def)

lemma convert_stray_marker:
  "ps \<noteq> [] \<Longrightarrow> str_contains ''%('' sql \<Longrightarrow> placeholder_names sql = []
   \<Longrightarrow> convert_pyformat_to_qmark sql (Some ps) = Inr (sql, Positional [])"
  by (simp add: convert_pyformat_to_qmark_def placeholder_names_def)

text \<open>
  C4. A template without \<open>%(\<close> is returned with the caller's mapping untouched. The guard
  tests for the two characters \<open>%(\<close> only, so a template that holds them without a whole
  placeholder takes the scanning path and comes back with an empty value list in place of
  the mapping.
\<close>

theorem passthrough_lost_on_stray_marker:
  "convert_pyformat_to_qmark ''SELECT a %(b) FROM t'' (Some [(''x'', 1::int)])
     = Inr (''SELECT a %(b) FROM t'', Positional [])"
  by code_simp

section \<open>Properties of commit and rollback\<close>




section \<open>Properties of the builder\<close>

lemma where_loop_snoc: "where_loop (pre @ [c]) = where_step (where_loop pre) c"
  by (simp add: where_loop_def)

lemma where_loop_append: "where_loop (pre @ post) = foldl where_step (where_loop pre) post"
  by (simp add: where_loop_def)

text \<open>
  C5 (as amended). A condition whose value is \<^verbatim>\<open>None\<close> appends its connective when it has
  one, then a space, the quoted column, a space and the comparison operator as given; it
  appends no placeholder and uses no alias.
\<close>

theorem null_value_fragment:
  assumes "cvalue c = NoneValue"
  shows "whereCondition (pre @ [c])
           = with_connective (whereCondition pre) (logicalOperator c)
               @ '' '' @ [dquote] @ paramName c @ [dquote] @ '' '' @ comparisonOperator c
         \<and> snd (where_loop (pre @ [c])) = snd (where_loop pre)"
  using assms
  by (simp add: whereCondition_def where_loop_snoc where_step_def append_condition_def
        split: prod.splits)

theorem null_value_fragment_witness:
  "whereCondition [\<lparr>paramName = ''a'', logicalOperator = None, comparisonOperator = ''='',
                     cvalue = ScalarValue (1::int)\<rparr>,
                   \<lparr>paramName = ''b'', logicalOperator = Some ''AND'',
                     comparisonOperator = ''IS NULL'', cvalue = NoneValue\<rparr>]
     = ''WHERE '' @ [dquote] @ ''a'' @ [dquote] @ '' = %(param_a)s AND ''
         @ [dquote] @ ''b'' @ [dquote] @ '' IS NULL''"
  using null_value_fragment[of
          "\<lparr>paramName = ''b'', logicalOperator = Some ''AND'',
             comparisonOperator = ''IS NULL'', cvalue = (NoneValue :: int cond_value)\<rparr>"
          "[\<lparr>paramName = ''a'', logicalOperator = None, comparisonOperator = ''='',
              cvalue = ScalarValue (1::int)\<rparr>]"]
  by (simp add: whereCondition_def where_loop_def where_step_def append_condition_def
        with_connective_def)

text \<open>The comparison operator of such a condition is part of the clause.\<close>

theorem null_value_operator_counterexample:
  "whereCondition [\<lparr>paramName = ''a'', logicalOperator = None,
                     comparisonOperator = ''IS NULL'', cvalue = (NoneValue :: int cond_value)\<rparr>]
     = ''WHERE '' @ [dquote] @ ''a'' @ [dquote] @ '' IS NULL''
   \<and> whereCondition [\<lparr>paramName = ''a'', logicalOperator = None,
                     comparisonOperator = ''IS NULL'', cvalue = (NoneValue :: int cond_value)\<rparr>]
     \<noteq> ''WHERE '' @ [dquote] @ ''a'' @ [dquote]"
  by (simp add: whereCondition_def where_loop_def where_step_def append_condition_def with_connective_def)

lemma empty_list_fragment:
  "cvalue c = ListValue [] \<Longrightarrow> where_step (result, used) c = (result @ ''   1'', used)"
  by (simp add: where_step_def append_condition_def with_connective_def)

text \<open>
  C6. A condition whose value is the empty list appends three spaces and \<open>1\<close>, whatever
  its column, operator and connective are: the connective is dropped with the rest, so
  after an earlier condition the clause holds two terms with nothing between them.
\<close>

theorem empty_list_drops_connective:
  "whereCondition [\<lparr>paramName = ''a'', logicalOperator = None, comparisonOperator = ''='',
                     cvalue = ScalarValue (1::int)\<rparr>,
                   \<lparr>paramName = ''b'', logicalOperator = Some ''AND'',
                     comparisonOperator = ''IN'', cvalue = ListValue []\<rparr>]
     = ''WHERE '' @ [dquote] @ ''a'' @ [dquote] @ '' = %(param_a)s   1''"
  by (simp add: whereCondition_def where_loop_def where_step_def append_condition_def with_connective_def)

lemma invalid_shape_rejected:
  "SqlBuilder_update table (DictData []) = Inl (ValueError ''Data for update() must be non-empty dict'')"
  "SqlBuilder_update table OtherData = Inl (ValueError ''Data for update() must be non-empty dict'')"
  "SqlBuilder_update table (ListData rows) = Inl (ValueError ''Data for update() must be non-empty dict'')"
  "SqlBuilder_insert table (ListData []) = Inl (ValueError ''Data for insert() must be dict or non-empty list[dict]'')"
  "SqlBuilder_insert table OtherData = Inl (ValueError ''Data for insert() must be dict or non-empty list[dict]'')"
  by (simp_all add: SqlBuilder_update_def SqlBuilder_insert_def insert_keys_def)

text \<open>
  C8. \<^verbatim>\<open>update\<close> rejects an empty mapping and anything that is not a mapping;
  \<^verbatim>\<open>insert\<close> rejects an empty list and anything that is neither a mapping nor a list,
  but builds a statement from an empty mapping.
\<close>

theorem insert_empty_mapping_accepted:
  "SqlBuilder_insert ''t'' (DictData ([] :: int pydict))
     = Inr (''INSERT INTO '' @ [dquote] @ ''t'' @ [dquote] @ '' () VALUES()'')"
  by (simp add: SqlBuilder_insert_def insert_keys_def)

subsection \<open>Aliases of list conditions\<close>





lemma inj_alias: "inj (alias_name p)"
  by (rule injI) (auto dest: alias_name_inj)








subsection \<open>Scalar conditions and the translator\<close>

lemma pyformat_match_intro:
  assumes "name \<noteq> []" "CHR '')'' \<notin> set name"
  shows "pyformat_match (''%('' @ name @ '')s'' @ rest) = Some (name, rest)"
proof -
  let ?P = "\<lambda>c. c \<noteq> CHR '')''"
  have t: "takeWhile ?P (name @ CHR '')'' # CHR ''s'' # rest) = name"
    using assms(2) by (induction name) auto
  have d: "dropWhile ?P (name @ CHR '')'' # CHR ''s'' # rest) = CHR '')'' # CHR ''s'' # rest"
    using assms(2) by (induction name) auto
  show ?thesis using assms(1) by (simp add: pyformat_match_def t d)
qed

lemma pyformat_match_no_percent: "c \<noteq> CHR ''%'' \<Longrightarrow> pyformat_match (c # s) = None"
  by (simp add: pyformat_match_def split: list.splits)

lemma pyformat_match_other:
  "c1 \<noteq> CHR ''%'' \<or> c2 \<noteq> CHR ''('' \<Longrightarrow> pyformat_match (c1 # c2 # r) = None"
  by (auto simp: pyformat_match_def)

lemma no_marker_tail: "\<not> str_contains ''%('' (c # s) \<Longrightarrow> \<not> str_contains ''%('' s"
  by simp

lemma no_marker_head:
  "\<not> str_contains ''%('' (c1 # c2 # s) \<Longrightarrow> c1 \<noteq> CHR ''%'' \<or> c2 \<noteq> CHR ''(''"
  by auto

lemma finditer_skip:
  "\<not> str_contains ''%('' lit \<Longrightarrow> lit = [] \<or> last lit \<noteq> CHR ''%''
   \<Longrightarrow> pyformat_finditer (front @ lit @ rest) (length front)
       = pyformat_finditer (front @ lit @ rest) (length front + length lit)"
proof (induction lit arbitrary: front)
  case Nil
  show ?case by simp
next
  case (Cons ch lit)
  let ?sql = "front @ (ch # lit) @ rest"
  have d: "drop (length front) ?sql = ch # lit @ rest" by simp
  have miss: "pyformat_match (ch # lit @ rest) = None"
  proof (cases lit)
    case Nil
    with Cons.prems(2) have "ch \<noteq> CHR ''%''" by simp
    then show ?thesis by (rule pyformat_match_no_percent)
  next
    case (Cons c2 lit')
    from no_marker_head[OF Cons.prems(1)[unfolded Cons]]
    show ?thesis unfolding Cons by (simp add: pyformat_match_other)
  qed
  have tail: "\<not> str_contains ''%('' lit" using Cons.prems(1) by (rule no_marker_tail)
  have lst: "lit = [] \<or> last lit \<noteq> CHR ''%''" using Cons.prems(2) by (cases lit) auto
  have "pyformat_finditer ?sql (length front) = pyformat_finditer ?sql (Suc (length front))"
    by (subst pyformat_finditer.simps) (simp add: miss)
  also have "\<dots> = pyformat_finditer ((front @ [ch]) @ lit @ rest) (length (front @ [ch]))"
    by simp
  also have "\<dots> = pyformat_finditer ((front @ [ch]) @ lit @ rest) (length (front @ [ch]) + length lit)"
    by (rule Cons.IH[OF tail lst])
  finally show ?case by simp
qed

lemma finditer_hit:
  assumes "name \<noteq> []" "CHR '')'' \<notin> set name"
  shows "pyformat_finditer (front @ ''%('' @ name @ '')s'' @ rest) (length front)
       = (length front, length front + length name + 4, name)
           # pyformat_finditer (front @ ''%('' @ name @ '')s'' @ rest) (length front + length name + 4)"
proof -
  let ?sql = "front @ ''%('' @ name @ '')s'' @ rest"
  have d: "drop (length front) ?sql = ''%('' @ name @ '')s'' @ rest" by simp
  have l: "\<not> length ?sql \<le> length front" by simp
  show ?thesis
    by (subst pyformat_finditer.simps) (simp only: l d pyformat_match_intro[OF assms] if_False option.case prod.case)
qed

lemma finditer_end: "pyformat_finditer sql (length sql) = []"
  by (subst pyformat_finditer.simps) simp


text \<open>
  What a condition with a scalar value appends: the text up to its placeholder, and the
  whole fragment with the placeholder \<^verbatim>\<open>%(param_<paramName>)s\<close>.
\<close>

definition scalar_prefix :: "'v condition \<Rightarrow> string" where
  "scalar_prefix c =
     with_connective [] (logicalOperator c) @ '' '' @ [dquote] @ paramName c @ [dquote]
       @ '' '' @ comparisonOperator c @ '' ''"

definition scalar_fragment :: "'v condition \<Rightarrow> string" where
  "scalar_fragment c = scalar_prefix c @ ''%('' @ (''param_'' @ paramName c) @ '')s'' "

lemma with_connective_append: "with_connective result lop = result @ with_connective [] lop"
  by (simp add: with_connective_def split: option.splits)

lemma where_step_scalar:
  "cvalue c = ScalarValue v \<Longrightarrow> where_step (result, used) c = (result @ scalar_fragment c, used)"
  by (simp add: where_step_def append_condition_def scalar_fragment_def scalar_prefix_def
        with_connective_append[of result])

lemma foldl_where_step_scalar:
  "\<forall>c \<in> set cs. \<exists>v. cvalue c = ScalarValue v
   \<Longrightarrow> foldl where_step (result, used) cs = (result @ concat (map scalar_fragment cs), used)"
proof (induction cs arbitrary: result)
  case Nil
  show ?case by simp
next
  case (Cons c cs)
  from Cons.prems obtain v where v: "cvalue c = ScalarValue v" by auto
  from Cons.prems have rest: "\<forall>c \<in> set cs. \<exists>v. cvalue c = ScalarValue v" by simp
  show ?case using Cons.IH[OF rest] where_step_scalar[OF v] by simp
qed

lemma whereCondition_scalar:
  "\<forall>c \<in> set cs. \<exists>v. cvalue c = ScalarValue v
   \<Longrightarrow> whereCondition cs = ''WHERE'' @ concat (map scalar_fragment cs)"
  using foldl_where_step_scalar[of cs "''WHERE''" "[]"]
  by (simp add: whereCondition_def where_loop_def)

lemma finditer_fragments:
  "\<forall>c \<in> set cs. \<not> str_contains ''%('' (scalar_prefix c) \<and> CHR '')'' \<notin> set (paramName c)
   \<Longrightarrow> map (\<lambda>m. snd (snd m))
         (pyformat_finditer (front @ concat (map scalar_fragment cs)) (length front))
       = map (\<lambda>c. ''param_'' @ paramName c) cs"
proof (induction cs arbitrary: front)
  case Nil
  show ?case by (simp add: finditer_end[of front, simplified])
next
  case (Cons c cs)
  let ?name = "''param_'' @ paramName c"
  let ?rest = "concat (map scalar_fragment cs)"
  let ?sql = "front @ concat (map scalar_fragment (c # cs))"
  have np: "\<not> str_contains ''%('' (scalar_prefix c)" and nc: "CHR '')'' \<notin> set ?name"
    using Cons.prems by auto
  have lst: "scalar_prefix c = [] \<or> last (scalar_prefix c) \<noteq> CHR ''%''"
    by (simp add: scalar_prefix_def)
  have ne: "?name \<noteq> []" by simp
  have sql1: "?sql = front @ scalar_prefix c @ (''%('' @ ?name @ '')s'' @ ?rest)"
    by (simp add: scalar_fragment_def)
  have sql2: "?sql = (front @ scalar_prefix c) @ ''%('' @ ?name @ '')s'' @ ?rest"
    by (simp add: scalar_fragment_def)
  have sql3: "?sql = (front @ scalar_prefix c @ ''%('' @ ?name @ '')s'') @ ?rest"
    by (simp add: scalar_fragment_def)
  have l3: "length (front @ scalar_prefix c) + length ?name + 4
              = length (front @ scalar_prefix c @ ''%('' @ ?name @ '')s'')" by simp
  have "pyformat_finditer ?sql (length front)
          = pyformat_finditer ?sql (length front + length (scalar_prefix c))"
    unfolding sql1 by (rule finditer_skip[OF np lst])
  also have "\<dots> = pyformat_finditer ?sql (length (front @ scalar_prefix c))" by simp
  also have "\<dots> = (length (front @ scalar_prefix c),
                    length (front @ scalar_prefix c) + length ?name + 4, ?name)
                   # pyformat_finditer ?sql (length (front @ scalar_prefix c) + length ?name + 4)"
    unfolding sql2 by (rule finditer_hit[OF ne nc])
  finally have step: "pyformat_finditer ?sql (length front)
      = (length (front @ scalar_prefix c),
         length (front @ scalar_prefix c) + length ?name + 4, ?name)
        # pyformat_finditer ?sql (length (front @ scalar_prefix c @ ''%('' @ ?name @ '')s''))"
    unfolding l3 .
  have ih: "map (\<lambda>m. snd (snd m))
         (pyformat_finditer ?sql (length (front @ scalar_prefix c @ ''%('' @ ?name @ '')s'')))
       = map (\<lambda>c. ''param_'' @ paramName c) cs"
    unfolding sql3 using Cons.prems by (intro Cons.IH) simp
  show ?case unfolding step using ih by simp
qed

lemma placeholder_names_alt:
  "placeholder_names sql = map (\<lambda>m. snd (snd m)) (pyformat_finditer sql 0)"
  by (simp add: placeholder_names_def case_prod_beta)

lemma placeholder_names_scalar:
  assumes "\<forall>c \<in> set cs. \<exists>v. cvalue c = ScalarValue v"
    and "\<forall>c \<in> set cs. \<not> str_contains ''%('' (scalar_prefix c) \<and> CHR '')'' \<notin> set (paramName c)"
  shows "placeholder_names (whereCondition cs) = map (\<lambda>c. ''param_'' @ paramName c) cs"
proof -
  let ?sql = "''WHERE'' @ concat (map scalar_fragment cs)"
  have "pyformat_finditer ([] @ ''WHERE'' @ concat (map scalar_fragment cs)) (length ([]::string))
      = pyformat_finditer ([] @ ''WHERE'' @ concat (map scalar_fragment cs))
          (length ([]::string) + length ''WHERE'')"
    by (rule finditer_skip) simp_all
  then have "pyformat_finditer ?sql 0 = pyformat_finditer ?sql (length ''WHERE'')" by simp
  with finditer_fragments[OF assms(2), of "''WHERE''"]
  have "map (\<lambda>m. snd (snd m)) (pyformat_finditer ?sql 0) = map (\<lambda>c. ''param_'' @ paramName c) cs"
    by simp
  then show ?thesis
    unfolding whereCondition_scalar[OF assms(1)] placeholder_names_alt .
qed

lemma no_marker_append:
  "\<not> str_contains ''%('' a \<Longrightarrow> \<not> str_contains ''%('' b
   \<Longrightarrow> a = [] \<or> last a \<noteq> CHR ''%'' \<or> b = [] \<or> hd b \<noteq> CHR ''(''
   \<Longrightarrow> \<not> str_contains ''%('' (a @ b)"
proof (induction a)
  case Nil
  then show ?case by simp
next
  case (Cons x a)
  have ta: "\<not> str_contains ''%('' a" using Cons.prems(1) by simp
  show ?case
  proof (cases a)
    case Nil
    with Cons.prems(3) have "x \<noteq> CHR ''%'' \<or> b = [] \<or> hd b \<noteq> CHR ''(''" by simp
    then have "take 2 (x # b) \<noteq> ''%(''" by (cases b) auto
    with Cons.prems(2) show ?thesis unfolding Nil by (simp add: numeral_2_eq_2)
  next
    case (Cons y a')
    have bd: "a = [] \<or> last a \<noteq> CHR ''%'' \<or> b = [] \<or> hd b \<noteq> CHR ''(''"
      using Cons.prems(3) Cons by simp
    have "\<not> str_contains ''%('' (a @ b)" by (rule Cons.IH[OF ta Cons.prems(2) bd])
    moreover have "x \<noteq> CHR ''%'' \<or> y \<noteq> CHR ''(''"
      using Cons.prems(1) unfolding Cons by auto
    ultimately show ?thesis unfolding Cons by auto
  qed
qed

lemma no_marker_after: "\<not> str_contains ''%('' s \<Longrightarrow> c \<noteq> CHR ''('' \<Longrightarrow> \<not> str_contains ''%('' (s @ [c])"
  by (rule no_marker_append) simp_all

lemma no_marker_before: "\<not> str_contains ''%('' s \<Longrightarrow> c \<noteq> CHR ''%'' \<Longrightarrow> \<not> str_contains ''%('' (c # s)"
  using no_marker_append[of "[c]" s] by simp

lemma scalar_prefix_no_marker:
  assumes p: "\<not> str_contains ''%('' (paramName c)"
    and o: "\<not> str_contains ''%('' (comparisonOperator c)"
    and l: "\<forall>lop. logicalOperator c = Some lop \<longrightarrow> \<not> str_contains ''%('' lop"
  shows "\<not> str_contains ''%('' (scalar_prefix c)"
proof -
  have dq: "dquote \<noteq> CHR ''%''" "dquote \<noteq> CHR ''(''" by (simp_all add: dquote_def)
  have sp: "CHR '' '' \<noteq> CHR ''%''" "CHR '' '' \<noteq> CHR ''(''" by simp_all
  have 1: "\<not> str_contains ''%('' (comparisonOperator c @ '' '')"
    by (rule no_marker_after[OF o sp(2)])
  have 2: "\<not> str_contains ''%('' (dquote # CHR '' '' # comparisonOperator c @ '' '')"
    by (intro no_marker_before 1 dq sp)
  have 3: "\<not> str_contains ''%('' (paramName c @ dquote # CHR '' '' # comparisonOperator c @ '' '')"
    by (rule no_marker_append[OF p 2]) (simp add: dq)
  have 4: "\<not> str_contains ''%('' (CHR '' '' # dquote # paramName c @ dquote # CHR '' '' # comparisonOperator c @ '' '')"
    by (intro no_marker_before 3 dq sp)
  have 5: "\<not> str_contains ''%('' (with_connective [] (logicalOperator c))"
  proof (cases "logicalOperator c")
    case None
    then show ?thesis by (simp add: with_connective_def)
  next
    case (Some lop)
    with l have "\<not> str_contains ''%('' lop" by simp
    then have "\<not> str_contains ''%('' (CHR '' '' # lop)" by (rule no_marker_before) simp
    with Some show ?thesis by (simp add: with_connective_def)
  qed
  have "\<not> str_contains ''%('' (with_connective [] (logicalOperator c)
          @ CHR '' '' # dquote # paramName c @ dquote # CHR '' '' # comparisonOperator c @ '' '')"
    by (rule no_marker_append[OF 5 4]) simp
  then show ?thesis by (simp add: scalar_prefix_def)
qed

lemma convert_found:
  assumes "ps \<noteq> []" "placeholder_names sql \<noteq> []"
    and "\<forall>name \<in> set (placeholder_names sql). map_of ps name \<noteq> None"
  shows "\<exists>text vals. convert_pyformat_to_qmark sql (Some ps) = Inr (text, Positional vals)
           \<and> map (map_of ps) (placeholder_names sql) = map Some vals"
proof -
  let ?ms = "pyformat_finditer sql 0"
  from assms(2) have ne: "?ms \<noteq> []" by (simp add: placeholder_names_def)
  then have c: "str_contains ''%('' sql" by (rule finditer_nonempty_contains)
  from assms(3) have "\<forall>m \<in> set ?ms. map_of ps (snd (snd m)) \<noteq> None"
    by (auto simp: placeholder_names_def)
  from convert_loop_values[OF this, of sql "[]" "[]" 0]
  obtain parts' vals' last' where
    r: "convert_loop sql ps ?ms ([], [], 0) = Inr (parts', vals', last')"
    and e: "map (\<lambda>m. map_of ps (snd (snd m))) ?ms = map Some vals'" by auto
  have conv: "convert_pyformat_to_qmark sql (Some ps)
                = Inr (concat (parts' @ [drop last' sql]), Positional vals')"
    using assms(1) c r by (simp add: convert_pyformat_to_qmark_def)
  have "map (map_of ps) (placeholder_names sql) = map Some vals'"
    using e by (simp add: placeholder_names_def case_prod_beta comp_def)
  with conv show ?thesis by blast
qed

text \<open>
  C9 (as amended). For a non-empty list of conditions with scalar, non-null values, whose
  column names hold neither \<open>)\<close> nor \<open>%\<close> and whose operators and connectives hold no
  \<open>%\<close>, the placeholders of the built clause are, in order, \<^verbatim>\<open>param_<paramName>\<close> of
  each condition; so a value source keyed by \<^verbatim>\<open>param_<paramName>\<close> of each condition
  suffices for the translation of the clause to succeed, and it binds the values in the
  order of the conditions.
\<close>

text \<open>
  C9 (as amended). For every list of conditions with scalar, non-null values, whose
  column names hold no \<open>)\<close> and whose column names, operators and connectives hold no
  \<open>%(\<close>, the placeholders of the built clause are, in order, \<^verbatim>\<open>param_<paramName>\<close> of
  each condition; so a value source keyed by \<^verbatim>\<open>param_<paramName>\<close> of each condition
  suffices for the translation of the clause to succeed, and for a non-empty list it
  binds the values in the order of the conditions.
\<close>

theorem scalar_conditions_bind_by_alias:
  assumes "\<forall>c \<in> set cs. \<exists>v. cvalue c = ScalarValue v"
    and "\<forall>c \<in> set cs. CHR '')'' \<notin> set (paramName c)
           \<and> \<not> str_contains ''%('' (paramName c)
           \<and> \<not> str_contains ''%('' (comparisonOperator c)
           \<and> (\<forall>lop. logicalOperator c = Some lop \<longrightarrow> \<not> str_contains ''%('' lop)"
    and "\<forall>c \<in> set cs. map_of ps (''param_'' @ paramName c) \<noteq> None"
  shows "placeholder_names (whereCondition cs) = map (\<lambda>c. ''param_'' @ paramName c) cs
         \<and> (\<exists>sqltext seq.
               convert_pyformat_to_qmark (whereCondition cs) (Some ps) = Inr (sqltext, seq)
               \<and> (cs \<noteq> [] \<longrightarrow>
                    (\<exists>vals. seq = Positional vals
                       \<and> map (\<lambda>c. map_of ps (''param_'' @ paramName c)) cs = map Some vals)))"
proof -
  have wf: "\<forall>c \<in> set cs. \<not> str_contains ''%('' (scalar_prefix c) \<and> CHR '')'' \<notin> set (paramName c)"
    using assms(2) scalar_prefix_no_marker by blast
  have names: "placeholder_names (whereCondition cs) = map (\<lambda>c. ''param_'' @ paramName c) cs"
    by (rule placeholder_names_scalar[OF assms(1) wf])
  show ?thesis
  proof (cases "cs = []")
    case True
    have w: "whereCondition cs = ''WHERE''" unfolding True
      by (simp add: whereCondition_def where_loop_def)
    have "\<exists>sqltext seq. convert_pyformat_to_qmark ''WHERE'' (Some ps) = Inr (sqltext, seq)"
      by (simp add: convert_pyformat_to_qmark_def)
    with names True w show ?thesis by simp
  next
    case False
    then obtain c where c: "c \<in> set cs" by (cases cs) auto
    with assms(3) have ps: "ps \<noteq> []" by auto
    have ne: "placeholder_names (whereCondition cs) \<noteq> []" unfolding names using False by simp
    have found: "\<forall>name \<in> set (placeholder_names (whereCondition cs)). map_of ps name \<noteq> None"
      unfolding names using assms(3) by auto
    from convert_found[OF ps ne found] obtain sqltext vals where
      conv: "convert_pyformat_to_qmark (whereCondition cs) (Some ps) = Inr (sqltext, Positional vals)"
      and m: "map (map_of ps) (placeholder_names (whereCondition cs)) = map Some vals" by blast
    from m have "map (\<lambda>c. map_of ps (''param_'' @ paramName c)) cs = map Some vals"
      unfolding names by (simp add: comp_def)
    with names conv show ?thesis by blast
  qed
qed

theorem scalar_conditions_bind_by_alias_witness:
  "whereCondition [\<lparr>paramName = ''100%'', logicalOperator = None, comparisonOperator = ''='',
                     cvalue = ScalarValue (5::int)\<rparr>,
                   \<lparr>paramName = ''b'', logicalOperator = Some ''OR'', comparisonOperator = ''%'',
                     cvalue = ScalarValue 7\<rparr>]
     = ''WHERE '' @ [dquote] @ ''100%'' @ [dquote] @ '' = %(param_100%)s OR ''
         @ [dquote] @ ''b'' @ [dquote] @ '' % %(param_b)s''
   \<and> convert_pyformat_to_qmark
        (whereCondition [\<lparr>paramName = ''100%'', logicalOperator = None, comparisonOperator = ''='',
                     cvalue = ScalarValue (5::int)\<rparr>,
                   \<lparr>paramName = ''b'', logicalOperator = Some ''OR'', comparisonOperator = ''%'',
                     cvalue = ScalarValue 7\<rparr>])
        (Some [(''param_b'', 7::int), (''param_100%'', 5)])
     = Inr (''WHERE '' @ [dquote] @ ''100%'' @ [dquote] @ '' = ? OR '' @ [dquote] @ ''b'' @ [dquote] @ '' % ?'',
            Positional [5, 7])"
proof -
  let ?cs = "[\<lparr>paramName = ''100%'', logicalOperator = None, comparisonOperator = ''='',
                     cvalue = ScalarValue (5::int)\<rparr>,
                   \<lparr>paramName = ''b'', logicalOperator = Some ''OR'', comparisonOperator = ''%'',
                     cvalue = ScalarValue 7\<rparr>]"
  have w: "whereCondition ?cs = ''WHERE '' @ [dquote] @ ''100%'' @ [dquote] @ '' = %(param_100%)s OR ''
         @ [dquote] @ ''b'' @ [dquote] @ '' % %(param_b)s''"
    by code_simp
  have c: "convert_pyformat_to_qmark (whereCondition ?cs) (Some [(''param_b'', 7::int), (''param_100%'', 5)])
     = Inr (''WHERE '' @ [dquote] @ ''100%'' @ [dquote] @ '' = ? OR '' @ [dquote] @ ''b'' @ [dquote] @ '' % ?'',
            Positional [5, 7])"
    by code_simp
  show ?thesis
    using scalar_conditions_bind_by_alias[of ?cs "[(''param_b'', 7::int), (''param_100%'', 5)]"] w c
    by simp
qed

text \<open>
  A value source keyed by the raw \<^verbatim>\<open>paramName\<close> is not enough: the placeholder carries the
  prefix \<^verbatim>\<open>param_\<close>. A column name with a closing parenthesis yields a placeholder the
  translator does not recognise, and one with \<open>%(\<close> makes the translator read a different
  name.
\<close>

theorem raw_name_source_counterexample:
  "convert_pyformat_to_qmark
        (whereCondition [\<lparr>paramName = ''a'', logicalOperator = None, comparisonOperator = ''='',
                           cvalue = ScalarValue (5::int)\<rparr>])
        (Some [(''a'', 5::int)])
     = Inl (missing_parameter ''param_a'' (''WHERE '' @ [dquote] @ ''a'' @ [dquote] @ '' = %(param_a)s''))
   \<and> convert_pyformat_to_qmark
        (whereCondition [\<lparr>paramName = ''a)b'', logicalOperator = None, comparisonOperator = ''='',
                           cvalue = ScalarValue (5::int)\<rparr>])
        (Some [(''param_a)b'', 5::int)])
     = Inr (''WHERE '' @ [dquote] @ ''a)b'' @ [dquote] @ '' = %(param_a)b)s'', Positional [])
   \<and> placeholder_names
        (whereCondition [\<lparr>paramName = ''a%(b'', logicalOperator = None, comparisonOperator = ''='',
                           cvalue = ScalarValue (5::int)\<rparr>])
     = [''b'' @ [dquote] @ '' = %(param_a%(b'']
   \<and> convert_pyformat_to_qmark
        (whereCondition [\<lparr>paramName = ''a%(b'', logicalOperator = None, comparisonOperator = ''='',
                           cvalue = ScalarValue (5::int)\<rparr>])
        (Some [(''param_a%(b'', 5::int)])
     = Inl (missing_parameter (''b'' @ [dquote] @ '' = %(param_a%(b'')
              (''WHERE '' @ [dquote] @ ''a%(b'' @ [dquote] @ '' = %(param_a%(b)s''))"
  by code_simp

end
